theory Spec2Isabelle
  imports Complex_Main "HOL-Library.Multiset"
begin

unbundle bit_operations_syntax

section \<open>Data model\<close>

text \<open>
  \<^verbatim>\<open>Models/Employee.cs\<close>: \<^verbatim>\<open>enum Role { Employee, Manager }\<close> and the
  \<^verbatim>\<open>Employee\<close> class. The role is never parsed from input by the controller; it is
  only read from the store and compared, so it is a two-valued datatype.
\<close>

datatype Role = Employee | Manager

record Employee =
  Id :: int
  Name :: string
  Email :: string
  Role :: Role

text \<open>
  A \<^verbatim>\<open>DateTime\<close> is a count of ticks (100 ns) since 0001-01-01; a \<^verbatim>\<open>TimeSpan\<close> is a
  difference of ticks. A calendar date is a \<^verbatim>\<open>DateTime\<close> at midnight, a multiple of
  \<open>TicksPerDay\<close>. \<^verbatim>\<open>TimeSpan.TotalDays\<close> is the tick count divided by
  \<open>TicksPerDay\<close>; it is kept as an exact rational here. (The source computes it as a
  double; around the only threshold the controller compares it with, fifteen days, one
  tick is about \<open>10\<^sup>-\<^sup>1\<^sup>2\<close> days while doubles are spaced about \<open>2 \<times> 10\<^sup>-\<^sup>1\<^sup>5\<close> apart, so the
  comparison has the same outcome.)
\<close>

type_synonym DateTime = int
type_synonym TimeSpan = int

definition TicksPerDay :: int where
  "TicksPerDay = 864000000000"

definition TotalDays :: "TimeSpan \<Rightarrow> rat" where
  "TotalDays t = of_int t / of_int TicksPerDay"

definition Date :: "DateTime \<Rightarrow> DateTime" where
  \<comment> \<open>\<^verbatim>\<open>DateTime.Date\<close>: the same day at midnight.\<close>
  "Date t = t - t mod TicksPerDay"

definition Today :: "DateTime \<Rightarrow> DateTime" where
  \<comment> \<open>\<^verbatim>\<open>DateTime.Today\<close> is \<^verbatim>\<open>DateTime.Now.Date\<close>; the clock reading is an input.\<close>
  "Today now = Date now"

definition day :: "int \<Rightarrow> DateTime" where
  \<comment> \<open>Midnight of calendar day number \<open>n\<close>.\<close>
  "day n = n * TicksPerDay"

text \<open>
  \<^verbatim>\<open>Models/LeaveRequest.cs\<close>: \<^verbatim>\<open>enum LeaveStatus { Pending, Approved, Rejected }\<close>. A C\#
  enum value is an \<^verbatim>\<open>Int32\<close>, and \<^verbatim>\<open>Enum.TryParse\<close>, which the controller calls on
  the request body, can return values that carry no name. The status is therefore the
  underlying integer, with the three named constants.
\<close>

type_synonym LeaveStatus = int

definition Pending :: LeaveStatus where "Pending = 0"
definition Approved :: LeaveStatus where "Approved = 1"
definition Rejected :: LeaveStatus where "Rejected = 2"

text \<open>
  Modelled from the spec: the class \<^verbatim>\<open>CreateLeaveRequestDto\<close>
  (\<^verbatim>\<open>DTOs/CreateLeaveRequestDto.cs\<close>), whose declaration is not among the sources. The
  spec gives creation the inputs ``employeeId, startDate, endDate, reason''; these are
  the four properties the controller reads and the fields of the front end's
  \<^verbatim>\<open>CreateLeaveRequest\<close> type.
\<close>

record CreateLeaveRequestDto =
  EmployeeId :: int
  StartDate :: DateTime
  EndDate :: DateTime
  Reason :: string

text \<open>
  The \<^verbatim>\<open>LeaveRequest\<close> entity. Its navigation property \<^verbatim>\<open>Employee\<close> is the row of
  the employee table that \<^verbatim>\<open>EmployeeId\<close> refers to; it is a join, not stored data, and
  is left out.
\<close>

record LeaveRequest =
  Id :: int
  EmployeeId :: int
  StartDate :: DateTime
  EndDate :: DateTime
  Status :: LeaveStatus
  Reason :: string

text \<open>
  \<^verbatim>\<open>Data/AppDbContext.cs\<close>: the two tables, each a list of rows in insertion order.
  The key of a new request is assigned by the database when the row is saved; the
  controller never sets it. The database is modelled as handing out consecutive keys:
  \<open>LastId\<close> is the last key used for a request, and a new row gets the next one.
\<close>

record AppDbContext =
  Employees :: "Employee list"
  LeaveRequests :: "LeaveRequest list"
  LastId :: int

definition FindEmployee :: "AppDbContext \<Rightarrow> int \<Rightarrow> Employee option" where
  \<comment> \<open>\<^verbatim>\<open>_context.Employees.FindAsync(id)\<close>: lookup by primary key.\<close>
  "FindEmployee db i = find (\<lambda>e. Employee.Id e = i) (Employees db)"

definition FindRequest :: "AppDbContext \<Rightarrow> int \<Rightarrow> LeaveRequest option" where
  \<comment> \<open>\<^verbatim>\<open>_context.LeaveRequests.FindAsync(id)\<close>: lookup by primary key.\<close>
  "FindRequest db i = find (\<lambda>r. LeaveRequest.Id r = i) (LeaveRequests db)"

definition OrderByDescending :: "('a \<Rightarrow> int) \<Rightarrow> 'a list \<Rightarrow> 'a list" where
  \<comment> \<open>A stable sort, largest key first.\<close>
  "OrderByDescending k xs = sort_key (\<lambda>x. - k x) xs"

definition AddRequest :: "AppDbContext \<Rightarrow> LeaveRequest \<Rightarrow> LeaveRequest \<times> AppDbContext" where
  \<comment> \<open>\<^verbatim>\<open>LeaveRequests.Add(request); SaveChangesAsync()\<close>: the row is stored under a new key.\<close>
  "AddRequest db r =
     (let r' = r\<lparr>LeaveRequest.Id := LastId db + 1\<rparr>
      in (r', db\<lparr>LeaveRequests := LeaveRequests db @ [r'], LastId := LastId db + 1\<rparr>))"

definition SetRequestStatus :: "AppDbContext \<Rightarrow> int \<Rightarrow> LeaveStatus \<Rightarrow> AppDbContext" where
  \<comment> \<open>\<^verbatim>\<open>request.Status = status; SaveChangesAsync()\<close> on the tracked row with key \<open>i\<close>.\<close>
  "SetRequestStatus db i s =
     db\<lparr>LeaveRequests :=
          map (\<lambda>r. if LeaveRequest.Id r = i then r\<lparr>Status := s\<rparr> else r) (LeaveRequests db)\<rparr>"

definition RemoveRequest :: "AppDbContext \<Rightarrow> int \<Rightarrow> AppDbContext" where
  \<comment> \<open>\<^verbatim>\<open>LeaveRequests.Remove(request); SaveChangesAsync()\<close> on the row with key \<open>i\<close>.\<close>
  "RemoveRequest db i =
     db\<lparr>LeaveRequests := filter (\<lambda>r. LeaveRequest.Id r \<noteq> i) (LeaveRequests db)\<rparr>"

section \<open>Results of the controller actions\<close>

text \<open>
  What an action returns: the success results (\<^verbatim>\<open>200\<close> with a list or a row,
  \<^verbatim>\<open>CreatedAtAction\<close>, \<^verbatim>\<open>NoContent\<close>) and the failures (\<^verbatim>\<open>NotFound()\<close>,
  \<^verbatim>\<open>NotFound(message)\<close>, \<^verbatim>\<open>BadRequest(message)\<close>, \<^verbatim>\<open>Unauthorized()\<close>).
\<close>

datatype ActionResult =
    OkList "LeaveRequest list"
  | OkRequest LeaveRequest
  | Created LeaveRequest
  | NoContent
  | NotFound
  | NotFoundMsg string
  | BadRequest string
  | Unauthorized

text \<open>The names the specification gives to the failures.\<close>

definition EmployeeNotFound :: ActionResult where
  "EmployeeNotFound = NotFoundMsg ''Employee not found''"

definition InvalidRange :: ActionResult where
  "InvalidRange = BadRequest ''End date must be after start date''"

definition PastDate :: ActionResult where
  "PastDate = BadRequest ''Cannot create requests for past dates''"

definition OverlapConflict :: ActionResult where
  "OverlapConflict = BadRequest ''Overlapping approved leave exists for this period''"

definition InvalidStatus :: ActionResult where
  "InvalidStatus = BadRequest ''Invalid status. Must be 'Approved' or 'Rejected'.''"

definition InvalidState :: ActionResult where
  "InvalidState = BadRequest ''Only pending requests can be canceled''"

section \<open>The controller\<close>

definition GetLeaveRequests :: "AppDbContext \<Rightarrow> int option \<Rightarrow> ActionResult" where
  "GetLeaveRequests db employeeId =
     (case employeeId of
        None \<Rightarrow> OkList (OrderByDescending StartDate (LeaveRequests db))
      | Some eid \<Rightarrow>
          (case FindEmployee db eid of
             None \<Rightarrow> EmployeeNotFound
           | Some employee \<Rightarrow>
               if Role employee = Manager
               then OkList (OrderByDescending StartDate (LeaveRequests db))
               else OkList (OrderByDescending StartDate
                      (filter (\<lambda>lr. EmployeeId lr = eid) (LeaveRequests db)))))"

definition GetLeaveRequest :: "AppDbContext \<Rightarrow> int \<Rightarrow> ActionResult" where
  "GetLeaveRequest db i =
     (case find (\<lambda>lr. LeaveRequest.Id lr = i) (LeaveRequests db) of
        None \<Rightarrow> NotFound
      | Some request \<Rightarrow> OkRequest request)"

definition overlap :: "AppDbContext \<Rightarrow> CreateLeaveRequestDto \<Rightarrow> bool" where
  "overlap db dto =
     list_ex (\<lambda>lr. EmployeeId lr = CreateLeaveRequestDto.EmployeeId dto \<and>
                   Status lr = Approved \<and>
                   StartDate lr \<le> CreateLeaveRequestDto.EndDate dto \<and>
                   EndDate lr \<ge> CreateLeaveRequestDto.StartDate dto)
             (LeaveRequests db)"

definition duration :: "CreateLeaveRequestDto \<Rightarrow> rat" where
  \<comment> \<open>\<^verbatim>\<open>(dto.EndDate - dto.StartDate).TotalDays + 1\<close>\<close>
  "duration dto =
     TotalDays (CreateLeaveRequestDto.EndDate dto - CreateLeaveRequestDto.StartDate dto) + 1"

definition CreateLeaveRequest ::
  "AppDbContext \<Rightarrow> DateTime \<Rightarrow> CreateLeaveRequestDto \<Rightarrow> ActionResult \<times> AppDbContext" where
  "CreateLeaveRequest db now dto =
     (case FindEmployee db (CreateLeaveRequestDto.EmployeeId dto) of
        None \<Rightarrow> (EmployeeNotFound, db)
      | Some employee \<Rightarrow>
          if CreateLeaveRequestDto.StartDate dto \<ge> CreateLeaveRequestDto.EndDate dto
          then (InvalidRange, db)
          else if CreateLeaveRequestDto.StartDate dto < Today now
          then (PastDate, db)
          else if overlap db dto
          then (OverlapConflict, db)
          else
            let status = (if duration dto > 15 then Rejected else Pending);
                request = \<lparr>Id = 0,
                           EmployeeId = CreateLeaveRequestDto.EmployeeId dto,
                           StartDate = CreateLeaveRequestDto.StartDate dto,
                           EndDate = CreateLeaveRequestDto.EndDate dto,
                           Status = status,
                           Reason = CreateLeaveRequestDto.Reason dto\<rparr>;
                (saved, db') = AddRequest db request
            in (Created saved, db'))"

definition NewRow :: "AppDbContext \<Rightarrow> CreateLeaveRequestDto \<Rightarrow> LeaveRequest" where
  \<comment> \<open>the row that \<open>CreateLeaveRequest\<close> stores when every check passes\<close>
  "NewRow db dto =
     \<lparr>Id = LastId db + 1,
      EmployeeId = CreateLeaveRequestDto.EmployeeId dto,
      StartDate = CreateLeaveRequestDto.StartDate dto,
      EndDate = CreateLeaveRequestDto.EndDate dto,
      Status = (if duration dto > 15 then Rejected else Pending),
      Reason = CreateLeaveRequestDto.Reason dto\<rparr>"

subsection \<open>Parsing the status string\<close>

text \<open>
  \<^verbatim>\<open>Enum.TryParse<LeaveStatus>(statusString, true, out var status)\<close> is a function of
  the .NET runtime. It is written out here as the runtime defines it, for strings of
  8-bit characters: leading white space is dropped; a string that starts with a digit or
  a sign is read as an \<^verbatim>\<open>Int32\<close> (optional sign, digits, then trailing white space and
  trailing NULs) and the number itself becomes the enum value, named or not; any other
  string (and one that starts like a number but is not one) is a comma-separated list of
  names, each trimmed and compared with the names of the enum, ignoring case when asked
  to, and the values found are combined with bitwise or.
\<close>

definition IsWhiteSpace :: "char \<Rightarrow> bool" where
  \<comment> \<open>\<^verbatim>\<open>char.IsWhiteSpace\<close> on the first 256 code points\<close>
  "IsWhiteSpace c =
     (let n = (of_char c :: nat) in (9 \<le> n \<and> n \<le> 13) \<or> n = 32 \<or> n = 133 \<or> n = 160)"

definition IsWhite :: "char \<Rightarrow> bool" where
  \<comment> \<open>the white space the number parser skips\<close>
  "IsWhite c = (let n = (of_char c :: nat) in n = 32 \<or> (9 \<le> n \<and> n \<le> 13))"

definition IsAsciiDigit :: "char \<Rightarrow> bool" where
  "IsAsciiDigit c = (let n = (of_char c :: nat) in 48 \<le> n \<and> n \<le> 57)"

definition IsAsciiLetter :: "char \<Rightarrow> bool" where
  \<comment> \<open>\<^verbatim>\<open>char.IsAsciiLetter\<close>; used to state facts about the parser, not by the parser\<close>
  "IsAsciiLetter c =
     (let n = (of_char c :: nat) in (65 \<le> n \<and> n \<le> 90) \<or> (97 \<le> n \<and> n \<le> 122))"

definition TrimStart :: "string \<Rightarrow> string" where
  "TrimStart s = dropWhile IsWhiteSpace s"

definition Trim :: "string \<Rightarrow> string" where
  "Trim s = rev (dropWhile IsWhiteSpace (rev (dropWhile IsWhiteSpace s)))"

definition ToUpperOrdinal :: "char \<Rightarrow> char" where
  \<comment> \<open>Only the letters a to z can become equal to a letter of an enum name.\<close>
  "ToUpperOrdinal c =
     (let n = (of_char c :: nat) in if 97 \<le> n \<and> n \<le> 122 then char_of (n - 32) else c)"

definition EqualsName :: "bool \<Rightarrow> string \<Rightarrow> string \<Rightarrow> bool" where
  "EqualsName ignoreCase s name =
     (if ignoreCase then map ToUpperOrdinal s = map ToUpperOrdinal name else s = name)"

definition LeaveStatusNames :: "(string \<times> LeaveStatus) list" where
  "LeaveStatusNames = [(''Pending'', Pending), (''Approved'', Approved), (''Rejected'', Rejected)]"

definition LookupName :: "bool \<Rightarrow> string \<Rightarrow> LeaveStatus option" where
  \<comment> \<open>the value of the first name that matches\<close>
  "LookupName ignoreCase s =
     map_option snd (find (\<lambda>(name, v). EqualsName ignoreCase s name) LeaveStatusNames)"

function TryParseByName :: "bool \<Rightarrow> string \<Rightarrow> int \<Rightarrow> LeaveStatus option" where
  "TryParseByName ignoreCase val localResult =
     (if val = [] then Some localResult
      else
        let endIndex = length (takeWhile (\<lambda>c. c \<noteq> CHR '','') val) in
        if endIndex = length val
        then (case LookupName ignoreCase (Trim val) of
                None \<Rightarrow> None
              | Some v \<Rightarrow> Some (localResult OR v))
        else if endIndex \<noteq> length val - 1
        then (case LookupName ignoreCase (Trim (take endIndex val)) of
                None \<Rightarrow> None
              | Some v \<Rightarrow> TryParseByName ignoreCase (drop (endIndex + 1) val) (localResult OR v))
        else None)"
  by pat_completeness auto
termination
  by (relation "measure (\<lambda>(ignoreCase, val, localResult). length val)") auto

datatype ParsingStatus = OK int | Failed | Overflow

definition DigitsValue :: "string \<Rightarrow> int" where
  "DigitsValue ds = foldl (\<lambda>a c. 10 * a + (int (of_char c) - 48)) 0 ds"

definition TryParseInt32 :: "string \<Rightarrow> ParsingStatus" where
  \<comment> \<open>\<^verbatim>\<open>NumberStyles.AllowLeadingSign | NumberStyles.AllowTrailingWhite\<close>, invariant culture\<close>
  "TryParseInt32 s =
     (let (isNegative, rest) =
            (case s of
               [] \<Rightarrow> (False, [])
             | c # cs \<Rightarrow> if c = CHR ''-'' then (True, cs)
                         else if c = CHR ''+'' then (False, cs) else (False, s));
          ds = takeWhile IsAsciiDigit rest;
          trailing = dropWhile (\<lambda>c. c = CHR 0x00)
                       (dropWhile IsWhite (dropWhile IsAsciiDigit rest))
      in if ds = [] \<or> trailing \<noteq> [] then Failed
         else
           let answer = (if isNegative then - DigitsValue ds else DigitsValue ds)
           in if - 2147483648 \<le> answer \<and> answer \<le> 2147483647 then OK answer else Overflow)"

definition TryParse :: "string \<Rightarrow> bool \<Rightarrow> LeaveStatus option" where
  "TryParse statusString ignoreCase =
     (case TrimStart statusString of
        [] \<Rightarrow> None
      | c # cs \<Rightarrow>
          if \<not> IsAsciiDigit c \<and> c \<noteq> CHR ''-'' \<and> c \<noteq> CHR ''+''
          then TryParseByName ignoreCase (c # cs) 0
          else (case TryParseInt32 (c # cs) of
                  OK v \<Rightarrow> Some v
                | Overflow \<Rightarrow> None
                | Failed \<Rightarrow> TryParseByName ignoreCase (c # cs) 0))"

subsection \<open>Status change, cancellation and deletion\<close>

definition UpdateLeaveStatus ::
  "AppDbContext \<Rightarrow> int \<Rightarrow> int \<Rightarrow> string \<Rightarrow> ActionResult \<times> AppDbContext" where
  "UpdateLeaveStatus db i managerId statusString =
     (let manager = FindEmployee db managerId in
      if manager = None \<or> Role (the manager) \<noteq> Manager then (Unauthorized, db)
      else
        case FindRequest db i of
          None \<Rightarrow> (NotFound, db)
        | Some request \<Rightarrow>
            (case TryParse statusString True of
               None \<Rightarrow> (InvalidStatus, db)
             | Some status \<Rightarrow>
                 let duration = TotalDays (EndDate request - StartDate request) in
                 if duration > 15 \<and> status = Approved
                 then (NoContent, SetRequestStatus db i status)
                 else (NoContent, SetRequestStatus db i status)))"

definition CancelLeaveRequest ::
  "AppDbContext \<Rightarrow> int \<Rightarrow> int \<Rightarrow> ActionResult \<times> AppDbContext" where
  "CancelLeaveRequest db i employeeId =
     (let request = FindRequest db i in
      if request = None \<or> EmployeeId (the request) \<noteq> employeeId then (Unauthorized, db)
      else if Status (the request) \<noteq> Pending then (InvalidState, db)
      else (NoContent, RemoveRequest db i))"

definition PermanentlyDeleteRequest ::
  "AppDbContext \<Rightarrow> int \<Rightarrow> int \<Rightarrow> ActionResult \<times> AppDbContext" where
  "PermanentlyDeleteRequest db i managerId =
     (let manager = FindEmployee db managerId in
      if manager = None \<or> Role (the manager) \<noteq> Manager then (Unauthorized, db)
      else
        case FindRequest db i of
          None \<Rightarrow> (NotFound, db)
        | Some request \<Rightarrow> (NoContent, RemoveRequest db i))"

section \<open>Reachable stores\<close>

text \<open>
  A store is reachable when it is a fresh database (any employees, no leave request:
  \<^verbatim>\<open>SeedData\<close> inserts employees only) or results from a reachable one by one of the
  four mutating actions, called with any arguments at any time.
\<close>

inductive reachable :: "AppDbContext \<Rightarrow> bool" where
  fresh: "LeaveRequests db = [] \<Longrightarrow> reachable db"
| create: "reachable db \<Longrightarrow> reachable (snd (CreateLeaveRequest db now dto))"
| setStatus: "reachable db \<Longrightarrow> reachable (snd (UpdateLeaveStatus db i managerId statusString))"
| cancel: "reachable db \<Longrightarrow> reachable (snd (CancelLeaveRequest db i employeeId))"
| delete: "reachable db \<Longrightarrow> reachable (snd (PermanentlyDeleteRequest db i managerId))"

section \<open>Example stores\<close>

text \<open>
  The employees of \<^verbatim>\<open>SeedData.Initialize\<close>, in a fresh database, and a database that
  already holds four requests: an approved one, a twenty-day one that was rejected at
  creation, a pending one, and an approved one of the manager.
\<close>

definition Alex :: Employee where
  "Alex = \<lparr>Employee.Id = 1, Name = ''Alex Employee'', Email = ''alex@company.com'',
           Role = Employee\<rparr>"

definition Morgan :: Employee where
  "Morgan = \<lparr>Employee.Id = 2, Name = ''Morgan Manager'', Email = ''morgan@company.com'',
             Role = Manager\<rparr>"

definition SeedEmployees :: "Employee list" where
  "SeedEmployees = [Alex, Morgan]"

definition SeedDb :: AppDbContext where
  "SeedDb = \<lparr>Employees = SeedEmployees, LeaveRequests = [], LastId = 0\<rparr>"

definition ApprovedLeave :: LeaveRequest where
  "ApprovedLeave = \<lparr>Id = 1, EmployeeId = 1, StartDate = day 200, EndDate = day 204,
                    Status = Approved, Reason = ''Conference''\<rparr>"

definition LongLeave :: LeaveRequest where
  "LongLeave = \<lparr>Id = 2, EmployeeId = 1, StartDate = day 300, EndDate = day 319,
                Status = Rejected, Reason = ''Long journey''\<rparr>"

definition PendingLeave :: LeaveRequest where
  "PendingLeave = \<lparr>Id = 3, EmployeeId = 1, StartDate = day 400, EndDate = day 402,
                   Status = Pending, Reason = ''Family visit''\<rparr>"

definition ManagerLeave :: LeaveRequest where
  "ManagerLeave = \<lparr>Id = 4, EmployeeId = 2, StartDate = day 250, EndDate = day 251,
                   Status = Approved, Reason = ''Moving house''\<rparr>"

definition ExampleRequests :: "LeaveRequest list" where
  "ExampleRequests = [ApprovedLeave, LongLeave, PendingLeave, ManagerLeave]"

definition ExampleDb :: AppDbContext where
  "ExampleDb = \<lparr>Employees = SeedEmployees, LeaveRequests = ExampleRequests, LastId = 4\<rparr>"

definition NewRequest :: "int \<Rightarrow> int \<Rightarrow> int \<Rightarrow> CreateLeaveRequestDto" where
  \<comment> \<open>the body of a \<^verbatim>\<open>POST\<close> for whole days \<open>a\<close> to \<open>b\<close>\<close>
  "NewRequest e a b =
     \<lparr>CreateLeaveRequestDto.EmployeeId = e, StartDate = day a, EndDate = day b,
      Reason = ''Vacation with family''\<rparr>"

section \<open>Facts about creation\<close>

lemmas LeaveStatus_defs = Pending_def Approved_def Rejected_def

lemmas error_defs = EmployeeNotFound_def InvalidRange_def PastDate_def OverlapConflict_def
  InvalidStatus_def InvalidState_def

lemma CreateLeaveRequest_cases:
  "CreateLeaveRequest db now dto =
     (if FindEmployee db (CreateLeaveRequestDto.EmployeeId dto) = None then (EmployeeNotFound, db)
      else if CreateLeaveRequestDto.StartDate dto \<ge> CreateLeaveRequestDto.EndDate dto
      then (InvalidRange, db)
      else if CreateLeaveRequestDto.StartDate dto < Today now then (PastDate, db)
      else if overlap db dto then (OverlapConflict, db)
      else (Created (NewRow db dto),
            db\<lparr>LeaveRequests := LeaveRequests db @ [NewRow db dto], LastId := LastId db + 1\<rparr>))"
  by (simp add: CreateLeaveRequest_def AddRequest_def NewRow_def Let_def split: option.splits)

lemma CreateLeaveRequest_Created:
  assumes "CreateLeaveRequest db now dto = (Created r, db')"
  shows "r = NewRow db dto"
    and "db' = db\<lparr>LeaveRequests := LeaveRequests db @ [r], LastId := LastId db + 1\<rparr>"
    and "CreateLeaveRequestDto.StartDate dto < CreateLeaveRequestDto.EndDate dto"
  using assms
  by (auto simp add: CreateLeaveRequest_cases error_defs split: if_splits)

lemma duration_whole_days:
  assumes "CreateLeaveRequestDto.StartDate dto = day a"
    and "CreateLeaveRequestDto.EndDate dto = day b"
  shows "duration dto = of_int (b - a) + 1"
proof -
  have "day b - day a = (b - a) * TicksPerDay"
    by (simp add: day_def left_diff_distrib)
  then have "TotalDays (day b - day a) = of_int (b - a)"
    by (simp add: TotalDays_def TicksPerDay_def)
  then show ?thesis using assms by (simp add: duration_def)
qed

lemma overlap_iff:
  "overlap db dto \<longleftrightarrow>
     (\<exists>lr \<in> set (LeaveRequests db).
        EmployeeId lr = CreateLeaveRequestDto.EmployeeId dto \<and> Status lr = Approved \<and>
        StartDate lr \<le> CreateLeaveRequestDto.EndDate dto \<and>
        EndDate lr \<ge> CreateLeaveRequestDto.StartDate dto)"
  by (simp add: overlap_def list_ex_iff)

lemmas example_defs = SeedDb_def ExampleDb_def SeedEmployees_def ExampleRequests_def
  Alex_def Morgan_def ApprovedLeave_def LongLeave_def PendingLeave_def ManagerLeave_def
  NewRequest_def FindEmployee_def FindRequest_def

lemmas date_defs = day_def TicksPerDay_def Today_def Date_def

section \<open>Claims about creation\<close>

text \<open>
  C1 (as the specification states it): a creation call for an existing employee with
  \<open>startDate = endDate\<close>, a start not before today and no overlapping approved request
  succeeds as a single-day request. The controller refuses it: at the input below all
  the conditions of the claim hold and the answer is \<open>InvalidRange\<close>, with the store
  unchanged.
\<close>

theorem C1_single_day_counterexample:
  "FindEmployee SeedDb 1 \<noteq> None \<and>
   CreateLeaveRequestDto.StartDate (NewRequest 1 100 100) =
     CreateLeaveRequestDto.EndDate (NewRequest 1 100 100) \<and>
   \<not> CreateLeaveRequestDto.StartDate (NewRequest 1 100 100) < Today (day 100) \<and>
   \<not> overlap SeedDb (NewRequest 1 100 100) \<and>
   CreateLeaveRequest SeedDb (day 100) (NewRequest 1 100 100) = (InvalidRange, SeedDb)"
  by (simp add: CreateLeaveRequest_def example_defs date_defs overlap_def)

text \<open>
  C1 (amended): a creation call for an existing employee with \<open>startDate = endDate\<close>
  fails with \<open>InvalidRange\<close> (``End date must be after start date'') and stores
  nothing, whatever the clock and the stored requests are.
\<close>

theorem C1_single_day_rejected:
  assumes "FindEmployee db (CreateLeaveRequestDto.EmployeeId dto) \<noteq> None"
    and "CreateLeaveRequestDto.StartDate dto = CreateLeaveRequestDto.EndDate dto"
  shows "CreateLeaveRequest db now dto = (InvalidRange, db)"
  using assms by (auto simp: CreateLeaveRequest_cases)

theorem C1_single_day_rejected_witness:
  "CreateLeaveRequest ExampleDb (day 100) (NewRequest 1 500 500) = (InvalidRange, ExampleDb)"
  using C1_single_day_rejected [of ExampleDb "NewRequest 1 500 500" "day 100"]
  by (simp add: example_defs)

text \<open>
  C3: when a request is created, its duration is the number of days from start to end
  plus one, and its status is \<open>Rejected\<close> exactly when the duration exceeds 15 and
  \<open>Pending\<close> otherwise; the stored row carries the dates of the call. From day \<open>n\<close>
  to day \<open>n + 14\<close> the duration is 15 and the request is \<open>Pending\<close>; to day
  \<open>n + 15\<close> it is 16 and the request is \<open>Rejected\<close>.
\<close>

theorem C3_duration_and_initial_status:
  assumes "CreateLeaveRequest db now dto = (Created r, db')"
  shows "(Status r = Rejected \<longleftrightarrow> duration dto > 15) \<and>
         (Status r = Pending \<longleftrightarrow> \<not> duration dto > 15) \<and>
         StartDate r = CreateLeaveRequestDto.StartDate dto \<and>
         EndDate r = CreateLeaveRequestDto.EndDate dto \<and>
         r \<in> set (LeaveRequests db') \<and>
         (\<forall>a b. CreateLeaveRequestDto.StartDate dto = day a \<and>
                CreateLeaveRequestDto.EndDate dto = day b \<longrightarrow>
                duration dto = of_int (b - a) + 1) \<and>
         (\<forall>n. CreateLeaveRequestDto.StartDate dto = day n \<and>
              CreateLeaveRequestDto.EndDate dto = day (n + 14) \<longrightarrow>
              duration dto = 15 \<and> Status r = Pending) \<and>
         (\<forall>n. CreateLeaveRequestDto.StartDate dto = day n \<and>
              CreateLeaveRequestDto.EndDate dto = day (n + 15) \<longrightarrow>
              duration dto = 16 \<and> Status r = Rejected)"
proof -
  note c = CreateLeaveRequest_Created [OF assms]
  have st: "Status r = (if duration dto > 15 then Rejected else Pending)"
    by (simp add: c(1) NewRow_def)
  have 1: "Status r = Rejected \<longleftrightarrow> duration dto > 15"
    by (simp add: st LeaveStatus_defs)
  have 2: "Status r = Pending \<longleftrightarrow> \<not> duration dto > 15"
    by (simp add: st LeaveStatus_defs)
  have 3: "StartDate r = CreateLeaveRequestDto.StartDate dto"
    "EndDate r = CreateLeaveRequestDto.EndDate dto"
    by (simp_all add: c(1) NewRow_def)
  have 4: "r \<in> set (LeaveRequests db')"
    by (subst c(2)) simp
  have 5: "duration dto = of_int (b - a) + 1"
    if "CreateLeaveRequestDto.StartDate dto = day a \<and> CreateLeaveRequestDto.EndDate dto = day b"
    for a b
    using that duration_whole_days by blast
  have 6: "duration dto = 15 \<and> Status r = Pending"
    if "CreateLeaveRequestDto.StartDate dto = day n \<and>
        CreateLeaveRequestDto.EndDate dto = day (n + 14)" for n
    using 5 [OF that] by (simp add: 2)
  have 7: "duration dto = 16 \<and> Status r = Rejected"
    if "CreateLeaveRequestDto.StartDate dto = day n \<and>
        CreateLeaveRequestDto.EndDate dto = day (n + 15)" for n
    using 5 [OF that] by (simp add: 1)
  show ?thesis
    using 1 2 3 4 5 6 7 by blast
qed

lemma create_14_days_later:
  "CreateLeaveRequest SeedDb (day 100) (NewRequest 1 100 114) =
     (Created (NewRow SeedDb (NewRequest 1 100 114)),
      SeedDb\<lparr>LeaveRequests := [NewRow SeedDb (NewRequest 1 100 114)], LastId := 1\<rparr>)"
  by (simp add: CreateLeaveRequest_cases example_defs date_defs overlap_def)

lemma create_15_days_later:
  "CreateLeaveRequest SeedDb (day 100) (NewRequest 1 100 115) =
     (Created (NewRow SeedDb (NewRequest 1 100 115)),
      SeedDb\<lparr>LeaveRequests := [NewRow SeedDb (NewRequest 1 100 115)], LastId := 1\<rparr>)"
  by (simp add: CreateLeaveRequest_cases example_defs date_defs overlap_def)

theorem C3_duration_and_initial_status_witness:
  "fst (CreateLeaveRequest SeedDb (day 100) (NewRequest 1 100 114)) =
     Created (NewRow SeedDb (NewRequest 1 100 114)) \<and>
   duration (NewRequest 1 100 114) = 15 \<and>
   Status (NewRow SeedDb (NewRequest 1 100 114)) = Pending \<and>
   fst (CreateLeaveRequest SeedDb (day 100) (NewRequest 1 100 115)) =
     Created (NewRow SeedDb (NewRequest 1 100 115)) \<and>
   duration (NewRequest 1 100 115) = 16 \<and>
   Status (NewRow SeedDb (NewRequest 1 100 115)) = Rejected"
proof -
  have a: "CreateLeaveRequestDto.StartDate (NewRequest 1 100 114) = day 100 \<and>
           CreateLeaveRequestDto.EndDate (NewRequest 1 100 114) = day (100 + 14)"
    by (simp add: NewRequest_def)
  have b: "CreateLeaveRequestDto.StartDate (NewRequest 1 100 115) = day 100 \<and>
           CreateLeaveRequestDto.EndDate (NewRequest 1 100 115) = day (100 + 15)"
    by (simp add: NewRequest_def)
  have A: "duration (NewRequest 1 100 114) = 15 \<and>
           Status (NewRow SeedDb (NewRequest 1 100 114)) = Pending"
    using C3_duration_and_initial_status [OF create_14_days_later] a by blast
  have B: "duration (NewRequest 1 100 115) = 16 \<and>
           Status (NewRow SeedDb (NewRequest 1 100 115)) = Rejected"
    using C3_duration_and_initial_status [OF create_15_days_later] b by blast
  show ?thesis
    using A B by (simp add: create_14_days_later create_15_days_later)
qed

text \<open>
  C4: when the employee exists, the start is before the end and the start is not before
  today, creation fails with \<open>OverlapConflict\<close> exactly when some stored request of
  the same employee with status \<open>Approved\<close> has \<open>start \<le> new end\<close> and
  \<open>end \<ge> new start\<close>; the store is then unchanged. Otherwise the request is created:
  stored requests that are not \<open>Approved\<close>, or that belong to another employee, never
  cause the failure.
\<close>

theorem C4_overlap_conflict_iff:
  assumes "FindEmployee db (CreateLeaveRequestDto.EmployeeId dto) \<noteq> None"
    and "CreateLeaveRequestDto.StartDate dto < CreateLeaveRequestDto.EndDate dto"
    and "\<not> CreateLeaveRequestDto.StartDate dto < Today now"
  shows "(fst (CreateLeaveRequest db now dto) = OverlapConflict \<longleftrightarrow>
            (\<exists>lr \<in> set (LeaveRequests db).
               EmployeeId lr = CreateLeaveRequestDto.EmployeeId dto \<and> Status lr = Approved \<and>
               StartDate lr \<le> CreateLeaveRequestDto.EndDate dto \<and>
               EndDate lr \<ge> CreateLeaveRequestDto.StartDate dto)) \<and>
         (fst (CreateLeaveRequest db now dto) = OverlapConflict \<longrightarrow>
            snd (CreateLeaveRequest db now dto) = db) \<and>
         (fst (CreateLeaveRequest db now dto) \<noteq> OverlapConflict \<longrightarrow>
            fst (CreateLeaveRequest db now dto) = Created (NewRow db dto)) \<and>
         ((\<forall>lr \<in> set (LeaveRequests db).
              Status lr \<noteq> Approved \<or> EmployeeId lr \<noteq> CreateLeaveRequestDto.EmployeeId dto) \<longrightarrow>
            fst (CreateLeaveRequest db now dto) = Created (NewRow db dto))"
proof (cases "overlap db dto")
  case True
  then have "CreateLeaveRequest db now dto = (OverlapConflict, db)"
    using assms by (auto simp: CreateLeaveRequest_cases)
  moreover have "\<exists>lr \<in> set (LeaveRequests db).
       EmployeeId lr = CreateLeaveRequestDto.EmployeeId dto \<and> Status lr = Approved \<and>
       StartDate lr \<le> CreateLeaveRequestDto.EndDate dto \<and>
       EndDate lr \<ge> CreateLeaveRequestDto.StartDate dto"
    using True by (simp add: overlap_iff)
  ultimately show ?thesis by auto
next
  case False
  then have c: "fst (CreateLeaveRequest db now dto) = Created (NewRow db dto)"
    using assms by (auto simp: CreateLeaveRequest_cases)
  have n: "\<not> (\<exists>lr \<in> set (LeaveRequests db).
       EmployeeId lr = CreateLeaveRequestDto.EmployeeId dto \<and> Status lr = Approved \<and>
       StartDate lr \<le> CreateLeaveRequestDto.EndDate dto \<and>
       EndDate lr \<ge> CreateLeaveRequestDto.StartDate dto)"
    using False by (simp add: overlap_iff)
  have d: "Created (NewRow db dto) \<noteq> OverlapConflict"
    by (simp add: OverlapConflict_def)
  show ?thesis
    using n d by (simp add: c)
qed

theorem C4_overlap_conflict_iff_witness:
  "CreateLeaveRequest ExampleDb (day 100) (NewRequest 1 204 210) = (OverlapConflict, ExampleDb) \<and>
   fst (CreateLeaveRequest ExampleDb (day 100) (NewRequest 1 205 210)) =
     Created (NewRow ExampleDb (NewRequest 1 205 210)) \<and>
   fst (CreateLeaveRequest ExampleDb (day 100) (NewRequest 1 310 401)) =
     Created (NewRow ExampleDb (NewRequest 1 310 401)) \<and>
   fst (CreateLeaveRequest ExampleDb (day 100) (NewRequest 1 250 251)) =
     Created (NewRow ExampleDb (NewRequest 1 250 251))"
proof -
  have e: "FindEmployee ExampleDb (CreateLeaveRequestDto.EmployeeId (NewRequest 1 a b)) \<noteq> None"
    for a b
    by (simp add: example_defs)
  have ex: "\<exists>lr \<in> set (LeaveRequests ExampleDb).
       EmployeeId lr = CreateLeaveRequestDto.EmployeeId (NewRequest 1 204 210) \<and>
       Status lr = Approved \<and>
       StartDate lr \<le> CreateLeaveRequestDto.EndDate (NewRequest 1 204 210) \<and>
       EndDate lr \<ge> CreateLeaveRequestDto.StartDate (NewRequest 1 204 210)"
    by (simp add: example_defs date_defs LeaveStatus_defs)
  have 1: "CreateLeaveRequest ExampleDb (day 100) (NewRequest 1 204 210) =
             (OverlapConflict, ExampleDb)"
    using C4_overlap_conflict_iff [OF e, of 204 210 "day 100"] ex
    by (simp add: NewRequest_def date_defs prod_eq_iff)
  have nex: "\<not> (\<exists>lr \<in> set (LeaveRequests ExampleDb).
       EmployeeId lr = CreateLeaveRequestDto.EmployeeId (NewRequest 1 a b) \<and>
       Status lr = Approved \<and>
       StartDate lr \<le> CreateLeaveRequestDto.EndDate (NewRequest 1 a b) \<and>
       EndDate lr \<ge> CreateLeaveRequestDto.StartDate (NewRequest 1 a b))"
    if "(a, b) \<in> {(205, 210), (310, 401), (250, 251)}" for a b
    using that by (auto simp add: example_defs date_defs LeaveStatus_defs)
  have 2: "fst (CreateLeaveRequest ExampleDb (day 100) (NewRequest 1 a b)) =
             Created (NewRow ExampleDb (NewRequest 1 a b))"
    if "(a, b) \<in> {(205, 210), (310, 401), (250, 251)}" for a b
  proof -
    have "CreateLeaveRequestDto.StartDate (NewRequest 1 a b) <
            CreateLeaveRequestDto.EndDate (NewRequest 1 a b)"
      and "\<not> CreateLeaveRequestDto.StartDate (NewRequest 1 a b) < Today (day 100)"
      using that by (auto simp: NewRequest_def date_defs)
    from C4_overlap_conflict_iff [OF e this] nex [OF that]
    show ?thesis by blast
  qed
  show ?thesis
    using 1 2 by simp
qed

section \<open>Claims about listing\<close>

lemma OrderByDescending_mset: "mset (OrderByDescending k xs) = mset xs"
  by (simp add: OrderByDescending_def)

lemma OrderByDescending_sorted:
  "sorted_wrt (\<lambda>a b. k a \<ge> k b) (OrderByDescending k xs)"
proof -
  have "sorted (map (\<lambda>x. - k x) (OrderByDescending k xs))"
    by (simp add: OrderByDescending_def)
  then show ?thesis
    by (simp add: sorted_map sorted_wrt_iff_nth_less)
qed

text \<open>
  C10: a listing call that supplies a caller id which resolves to no employee fails with
  \<open>NotFound\<close> and the message ``Employee not found''; it returns no list.
\<close>

theorem C10_unknown_caller_not_found:
  assumes "FindEmployee db callerId = None"
  shows "GetLeaveRequests db (Some callerId) = NotFoundMsg ''Employee not found'' \<and>
         GetLeaveRequests db (Some callerId) = EmployeeNotFound \<and>
         (\<nexists>rs. GetLeaveRequests db (Some callerId) = OkList rs)"
  using assms by (simp add: GetLeaveRequests_def EmployeeNotFound_def)

theorem C10_unknown_caller_not_found_witness:
  "FindEmployee ExampleDb 7 = None \<and>
   GetLeaveRequests ExampleDb (Some 7) = NotFoundMsg ''Employee not found''"
proof -
  have "FindEmployee ExampleDb 7 = None"
    by (simp add: example_defs)
  then show ?thesis
    using C10_unknown_caller_not_found [of ExampleDb 7] by simp
qed


text \<open>
  C9: a listing call without a caller id, or with the id of a \<open>Manager\<close>, returns every
  stored request; with the id of an \<open>Employee\<close> it returns exactly the stored requests
  whose owner is that id. Every list returned is ordered by start date, latest first
  (the stable descending sort of the rows).
\<close>

theorem C9_listing_by_role:
  "(\<exists>rs. GetLeaveRequests db None = OkList rs \<and>
         rs = OrderByDescending StartDate (LeaveRequests db) \<and>
         mset rs = mset (LeaveRequests db)) \<and>
   (\<forall>e. FindEmployee db callerId = Some e \<and> Role e = Manager \<longrightarrow>
      (\<exists>rs. GetLeaveRequests db (Some callerId) = OkList rs \<and>
            rs = OrderByDescending StartDate (LeaveRequests db) \<and>
            mset rs = mset (LeaveRequests db))) \<and>
   (\<forall>e. FindEmployee db callerId = Some e \<and> Role e = Employee \<longrightarrow>
      (\<exists>rs. GetLeaveRequests db (Some callerId) = OkList rs \<and>
            rs = OrderByDescending StartDate
                   (filter (\<lambda>lr. EmployeeId lr = callerId) (LeaveRequests db)) \<and>
            mset rs = filter_mset (\<lambda>lr. EmployeeId lr = callerId) (mset (LeaveRequests db)))) \<and>
   (\<forall>rs. GetLeaveRequests db query = OkList rs \<longrightarrow>
      sorted_wrt (\<lambda>a b. StartDate a \<ge> StartDate b) rs)"
proof -
  have 1: "\<exists>rs. GetLeaveRequests db None = OkList rs \<and>
         rs = OrderByDescending StartDate (LeaveRequests db) \<and>
         mset rs = mset (LeaveRequests db)"
    by (simp add: GetLeaveRequests_def OrderByDescending_mset)
  have 2: "\<exists>rs. GetLeaveRequests db (Some callerId) = OkList rs \<and>
            rs = OrderByDescending StartDate (LeaveRequests db) \<and>
            mset rs = mset (LeaveRequests db)"
    if "FindEmployee db callerId = Some e \<and> Role e = Manager" for e
    using that by (simp add: GetLeaveRequests_def OrderByDescending_mset)
  have 3: "\<exists>rs. GetLeaveRequests db (Some callerId) = OkList rs \<and>
            rs = OrderByDescending StartDate
                   (filter (\<lambda>lr. EmployeeId lr = callerId) (LeaveRequests db)) \<and>
            mset rs = filter_mset (\<lambda>lr. EmployeeId lr = callerId) (mset (LeaveRequests db))"
    if "FindEmployee db callerId = Some e \<and> Role e = Employee" for e
    using that by (simp add: GetLeaveRequests_def OrderByDescending_mset)
  have 4: "sorted_wrt (\<lambda>a b. StartDate a \<ge> StartDate b) rs"
    if "GetLeaveRequests db query = OkList rs" for rs
    using that
    by (auto simp: GetLeaveRequests_def EmployeeNotFound_def OrderByDescending_sorted
        split: option.splits if_splits)
  show ?thesis
    using 1 2 3 4 by blast
qed

lemma OrderByDescending_ExampleRequests:
  "OrderByDescending StartDate ExampleRequests = [PendingLeave, LongLeave, ManagerLeave, ApprovedLeave]"
  "OrderByDescending StartDate (filter (\<lambda>lr. EmployeeId lr = 1) ExampleRequests) =
     [PendingLeave, LongLeave, ApprovedLeave]"
  by (simp_all add: OrderByDescending_def ExampleRequests_def ApprovedLeave_def LongLeave_def
      PendingLeave_def ManagerLeave_def date_defs)

theorem C9_listing_by_role_witness:
  "GetLeaveRequests ExampleDb None = OkList ([PendingLeave, LongLeave, ManagerLeave, ApprovedLeave]) \<and>
   GetLeaveRequests ExampleDb (Some 2) = OkList ([PendingLeave, LongLeave, ManagerLeave, ApprovedLeave]) \<and>
   GetLeaveRequests ExampleDb (Some 1) = OkList ([PendingLeave, LongLeave, ApprovedLeave]) \<and>
   sorted_wrt (\<lambda>a b. StartDate a \<ge> StartDate b) ([PendingLeave, LongLeave, ApprovedLeave])"
proof -
  have m: "FindEmployee ExampleDb 2 = Some Morgan \<and> Role Morgan = Manager"
    by (simp add: example_defs)
  have e: "FindEmployee ExampleDb 1 = Some Alex \<and> Role Alex = Employee"
    by (simp add: example_defs)
  have l: "LeaveRequests ExampleDb = ExampleRequests"
    by (simp add: ExampleDb_def)
  have 1: "GetLeaveRequests ExampleDb None = OkList ([PendingLeave, LongLeave, ManagerLeave, ApprovedLeave])"
    using C9_listing_by_role [of ExampleDb 2 None]
    by (auto simp: l OrderByDescending_ExampleRequests)
  have 2: "GetLeaveRequests ExampleDb (Some 2) = OkList ([PendingLeave, LongLeave, ManagerLeave, ApprovedLeave])"
    using C9_listing_by_role [of ExampleDb 2 None] m
    by (auto simp: l OrderByDescending_ExampleRequests)
  have 3: "GetLeaveRequests ExampleDb (Some 1) = OkList ([PendingLeave, LongLeave, ApprovedLeave])"
    using C9_listing_by_role [of ExampleDb 1 "Some 1"] e
    by (auto simp: l OrderByDescending_ExampleRequests)
  have 4: "sorted_wrt (\<lambda>a b. StartDate a \<ge> StartDate b) ([PendingLeave, LongLeave, ApprovedLeave])"
    using C9_listing_by_role [of ExampleDb 1 "Some 1"] 3 by blast
  show ?thesis
    using 1 2 3 4 by blast
qed

section \<open>Facts about the store operations\<close>

lemma find_SetStatus_same:
  "find (\<lambda>r. LeaveRequest.Id r = i)
     (map (\<lambda>r. if LeaveRequest.Id r = i then r\<lparr>Status := s\<rparr> else r) rs) =
   map_option (\<lambda>r. r\<lparr>Status := s\<rparr>) (find (\<lambda>r. LeaveRequest.Id r = i) rs)"
  by (induction rs) simp_all

lemma find_SetStatus_other:
  "j \<noteq> i \<Longrightarrow>
   find (\<lambda>r. LeaveRequest.Id r = j)
     (map (\<lambda>r. if LeaveRequest.Id r = i then r\<lparr>Status := s\<rparr> else r) rs) =
   find (\<lambda>r. LeaveRequest.Id r = j) rs"
  by (induction rs) simp_all

lemma find_Remove_same:
  "find (\<lambda>r. LeaveRequest.Id r = i) (filter (\<lambda>r. LeaveRequest.Id r \<noteq> i) rs) = None"
  by (induction rs) simp_all

lemma find_Remove_other:
  "j \<noteq> i \<Longrightarrow>
   find (\<lambda>r. LeaveRequest.Id r = j) (filter (\<lambda>r. LeaveRequest.Id r \<noteq> i) rs) =
   find (\<lambda>r. LeaveRequest.Id r = j) rs"
  by (induction rs) simp_all

lemma FindRequest_SetRequestStatus:
  "FindRequest (SetRequestStatus db i s) i = map_option (\<lambda>r. r\<lparr>Status := s\<rparr>) (FindRequest db i)"
  "j \<noteq> i \<Longrightarrow> FindRequest (SetRequestStatus db i s) j = FindRequest db j"
  by (simp_all add: FindRequest_def SetRequestStatus_def find_SetStatus_same find_SetStatus_other)

lemma FindRequest_RemoveRequest:
  "FindRequest (RemoveRequest db i) i = None"
  "j \<noteq> i \<Longrightarrow> FindRequest (RemoveRequest db i) j = FindRequest db j"
  by (simp_all add: FindRequest_def RemoveRequest_def find_Remove_same find_Remove_other)

lemma SetRequestStatus_dates:
  "map (\<lambda>r. (LeaveRequest.Id r, EmployeeId r, StartDate r, EndDate r, Reason r))
     (LeaveRequests (SetRequestStatus db i s)) =
   map (\<lambda>r. (LeaveRequest.Id r, EmployeeId r, StartDate r, EndDate r, Reason r)) (LeaveRequests db)"
  by (simp add: SetRequestStatus_def comp_def if_distrib cong: if_cong)

lemma SetRequestStatus_rows:
  "r' \<in> set (LeaveRequests (SetRequestStatus db i s)) \<Longrightarrow>
   \<exists>r \<in> set (LeaveRequests db). StartDate r' = StartDate r \<and> EndDate r' = EndDate r"
  by (auto simp: SetRequestStatus_def)

lemma RemoveRequest_rows:
  "set (LeaveRequests (RemoveRequest db i)) \<subseteq> set (LeaveRequests db)"
  by (auto simp: RemoveRequest_def)

lemma UpdateLeaveStatus_cases:
  "UpdateLeaveStatus db i managerId statusString =
     (if FindEmployee db managerId = None \<or> Role (the (FindEmployee db managerId)) \<noteq> Manager
      then (Unauthorized, db)
      else if FindRequest db i = None then (NotFound, db)
      else (case TryParse statusString True of
              None \<Rightarrow> (InvalidStatus, db)
            | Some status \<Rightarrow> (NoContent, SetRequestStatus db i status)))"
  by (simp add: UpdateLeaveStatus_def Let_def split: option.splits)

lemma CancelLeaveRequest_cases:
  "CancelLeaveRequest db i employeeId =
     (case FindRequest db i of
        None \<Rightarrow> (Unauthorized, db)
      | Some r \<Rightarrow>
          if EmployeeId r \<noteq> employeeId then (Unauthorized, db)
          else if Status r \<noteq> Pending then (InvalidState, db)
          else (NoContent, RemoveRequest db i))"
  by (simp add: CancelLeaveRequest_def Let_def split: option.splits)

lemma PermanentlyDeleteRequest_cases:
  "PermanentlyDeleteRequest db i managerId =
     (if FindEmployee db managerId = None \<or> Role (the (FindEmployee db managerId)) \<noteq> Manager
      then (Unauthorized, db)
      else if FindRequest db i = None then (NotFound, db)
      else (NoContent, RemoveRequest db i))"
  by (simp add: PermanentlyDeleteRequest_def Let_def split: option.splits)

lemma not_manager_iff:
  "(FindEmployee db managerId = None \<or> Role (the (FindEmployee db managerId)) \<noteq> Manager) \<longleftrightarrow>
   (FindEmployee db managerId = None \<or>
    (\<exists>e. FindEmployee db managerId = Some e \<and> Role e \<noteq> Manager))"
  by (cases "FindEmployee db managerId") auto

section \<open>Claims about status change\<close>

text \<open>
  C5: when the actor is a \<open>Manager\<close>, the request exists and the status value is
  accepted by the parser, the call succeeds and the stored request is the old one with
  its status replaced by the parsed status. Nothing is assumed about the old status, the
  length of the request or the other stored requests, and no other request, and no field
  other than the status, changes.
\<close>

theorem C5_status_set_unconditionally:
  assumes "FindEmployee db managerId = Some m"
    and "Role m = Manager"
    and "FindRequest db i = Some request"
    and "TryParse statusString True = Some status"
  shows "UpdateLeaveStatus db i managerId statusString = (NoContent, SetRequestStatus db i status) \<and>
         FindRequest (SetRequestStatus db i status) i = Some (request\<lparr>Status := status\<rparr>) \<and>
         (\<forall>j. j \<noteq> i \<longrightarrow> FindRequest (SetRequestStatus db i status) j = FindRequest db j) \<and>
         Employees (SetRequestStatus db i status) = Employees db \<and>
         map (\<lambda>r. (LeaveRequest.Id r, EmployeeId r, StartDate r, EndDate r, Reason r))
           (LeaveRequests (SetRequestStatus db i status)) =
         map (\<lambda>r. (LeaveRequest.Id r, EmployeeId r, StartDate r, EndDate r, Reason r))
           (LeaveRequests db)"
proof -
  have 1: "UpdateLeaveStatus db i managerId statusString =
             (NoContent, SetRequestStatus db i status)"
    using assms by (simp add: UpdateLeaveStatus_cases)
  have 2: "FindRequest (SetRequestStatus db i status) i = Some (request\<lparr>Status := status\<rparr>)"
    using assms(3) by (simp add: FindRequest_SetRequestStatus)
  have 3: "Employees (SetRequestStatus db i status) = Employees db"
    by (simp add: SetRequestStatus_def)
  show ?thesis
    using 1 2 3 by (simp add: FindRequest_SetRequestStatus SetRequestStatus_dates)
qed

text \<open>
  C6: a status change answers \<open>Unauthorized\<close> exactly when the actor id resolves to
  no employee or to one whose role is not \<open>Manager\<close>. The store is then unchanged, and
  the answer is the same whether or not the request id exists.
\<close>

theorem C6_unauthorized_iff:
  "(fst (UpdateLeaveStatus db i managerId statusString) = Unauthorized \<longleftrightarrow>
      (FindEmployee db managerId = None \<or>
       (\<exists>e. FindEmployee db managerId = Some e \<and> Role e \<noteq> Manager))) \<and>
   (fst (UpdateLeaveStatus db i managerId statusString) = Unauthorized \<longrightarrow>
      snd (UpdateLeaveStatus db i managerId statusString) = db) \<and>
   ((FindEmployee db managerId = None \<or>
     (\<exists>e. FindEmployee db managerId = Some e \<and> Role e \<noteq> Manager)) \<and>
    FindRequest db i = None \<longrightarrow>
      UpdateLeaveStatus db i managerId statusString = (Unauthorized, db))"
proof (cases "FindEmployee db managerId = None \<or>
    Role (the (FindEmployee db managerId)) \<noteq> Manager")
  case True
  then have "UpdateLeaveStatus db i managerId statusString = (Unauthorized, db)"
    by (simp add: UpdateLeaveStatus_cases)
  moreover from True have "FindEmployee db managerId = None \<or>
       (\<exists>e. FindEmployee db managerId = Some e \<and> Role e \<noteq> Manager)"
    using not_manager_iff [of db managerId] by blast
  ultimately show ?thesis by simp
next
  case False
  then have n: "\<not> (FindEmployee db managerId = None \<or>
       (\<exists>e. FindEmployee db managerId = Some e \<and> Role e \<noteq> Manager))"
    using not_manager_iff [of db managerId] by blast
  have "fst (UpdateLeaveStatus db i managerId statusString) \<noteq> Unauthorized"
    using False
    by (auto simp: UpdateLeaveStatus_cases InvalidStatus_def split: option.splits)
  then show ?thesis
    using n by blast
qed

lemma TryParse_examples:
  "TryParse ''Approved'' True = Some Approved"
  "TryParse ''Rejected'' True = Some Rejected"
  "TryParse ''approved'' True = Some Approved"
  "TryParse ''Pending'' True = Some Pending"
  by code_simp+

lemma FindEmployee_Example:
  "FindEmployee ExampleDb 1 = Some Alex"
  "FindEmployee ExampleDb 2 = Some Morgan"
  "FindEmployee ExampleDb 7 = None"
  "Role Alex = Employee"
  "Role Morgan = Manager"
  by (simp_all add: example_defs)

lemma FindRequest_Example:
  "FindRequest ExampleDb 1 = Some ApprovedLeave"
  "FindRequest ExampleDb 2 = Some LongLeave"
  "FindRequest ExampleDb 3 = Some PendingLeave"
  "FindRequest ExampleDb 4 = Some ManagerLeave"
  "FindRequest ExampleDb 99 = None"
  by (simp_all add: example_defs)

theorem C5_status_set_unconditionally_witness:
  "Status LongLeave = Rejected \<and>
   TotalDays (EndDate LongLeave - StartDate LongLeave) + 1 = 20 \<and>
   UpdateLeaveStatus ExampleDb 2 2 ''Approved'' = (NoContent, SetRequestStatus ExampleDb 2 Approved) \<and>
   FindRequest (SetRequestStatus ExampleDb 2 Approved) 2 =
     Some (LongLeave\<lparr>Status := Approved\<rparr>) \<and>
   Status ApprovedLeave = Approved \<and>
   UpdateLeaveStatus ExampleDb 1 2 ''Rejected'' = (NoContent, SetRequestStatus ExampleDb 1 Rejected) \<and>
   FindRequest (SetRequestStatus ExampleDb 1 Rejected) 1 =
     Some (ApprovedLeave\<lparr>Status := Rejected\<rparr>)"
proof -
  have a: "Status LongLeave = Rejected"
    "TotalDays (EndDate LongLeave - StartDate LongLeave) + 1 = 20"
    "Status ApprovedLeave = Approved"
    by (simp_all add: example_defs TotalDays_def date_defs)
  note b = C5_status_set_unconditionally [OF FindEmployee_Example(2) FindEmployee_Example(5)
      FindRequest_Example(2) TryParse_examples(1)]
  note c = C5_status_set_unconditionally [OF FindEmployee_Example(2) FindEmployee_Example(5)
      FindRequest_Example(1) TryParse_examples(2)]
  show ?thesis
    using a b c by blast
qed

theorem C6_unauthorized_iff_witness:
  "UpdateLeaveStatus ExampleDb 99 1 ''Approved'' = (Unauthorized, ExampleDb) \<and>
   UpdateLeaveStatus ExampleDb 99 7 ''Approved'' = (Unauthorized, ExampleDb) \<and>
   fst (UpdateLeaveStatus ExampleDb 3 1 ''Approved'') = Unauthorized \<and>
   snd (UpdateLeaveStatus ExampleDb 3 1 ''Approved'') = ExampleDb \<and>
   fst (UpdateLeaveStatus ExampleDb 3 2 ''Approved'') \<noteq> Unauthorized"
proof -
  have a: "FindEmployee ExampleDb 1 = None \<or>
       (\<exists>e. FindEmployee ExampleDb 1 = Some e \<and> Role e \<noteq> Manager)"
    by (simp add: FindEmployee_Example)
  have b: "FindEmployee ExampleDb 7 = None \<or>
       (\<exists>e. FindEmployee ExampleDb 7 = Some e \<and> Role e \<noteq> Manager)"
    by (simp add: FindEmployee_Example)
  have c: "\<not> (FindEmployee ExampleDb 2 = None \<or>
       (\<exists>e. FindEmployee ExampleDb 2 = Some e \<and> Role e \<noteq> Manager))"
    by (simp add: FindEmployee_Example)
  have 1: "UpdateLeaveStatus ExampleDb 99 1 ''Approved'' = (Unauthorized, ExampleDb)"
    using C6_unauthorized_iff [of ExampleDb 99 1 "''Approved''"] a FindRequest_Example(5)
    by blast
  have 2: "UpdateLeaveStatus ExampleDb 99 7 ''Approved'' = (Unauthorized, ExampleDb)"
    using C6_unauthorized_iff [of ExampleDb 99 7 "''Approved''"] b FindRequest_Example(5)
    by blast
  have 3: "fst (UpdateLeaveStatus ExampleDb 3 1 ''Approved'') = Unauthorized \<and>
           snd (UpdateLeaveStatus ExampleDb 3 1 ''Approved'') = ExampleDb"
    using C6_unauthorized_iff [of ExampleDb 3 1 "''Approved''"] a by blast
  have 4: "fst (UpdateLeaveStatus ExampleDb 3 2 ''Approved'') \<noteq> Unauthorized"
    using C6_unauthorized_iff [of ExampleDb 3 2 "''Approved''"] c by blast
  show ?thesis
    using 1 2 3 4 by blast
qed

section \<open>Claims about cancellation\<close>

text \<open>
  C7: cancellation answers \<open>Unauthorized\<close>, the same result, when the request id
  resolves to nothing and when the request belongs to another employee. For the owner it
  answers \<open>InvalidState\<close> when the status is not \<open>Pending\<close>; otherwise it succeeds,
  and afterwards the id resolves to nothing while every other id resolves as before.
  Whenever the call does not succeed, the store is unchanged.
\<close>

theorem C7_cancel_cases:
  "(FindRequest db i = None \<longrightarrow> CancelLeaveRequest db i employeeId = (Unauthorized, db)) \<and>
   (\<forall>r. FindRequest db i = Some r \<and> EmployeeId r \<noteq> employeeId \<longrightarrow>
      CancelLeaveRequest db i employeeId = (Unauthorized, db)) \<and>
   (\<forall>r. FindRequest db i = Some r \<and> EmployeeId r = employeeId \<and> Status r \<noteq> Pending \<longrightarrow>
      CancelLeaveRequest db i employeeId = (InvalidState, db)) \<and>
   (\<forall>r. FindRequest db i = Some r \<and> EmployeeId r = employeeId \<and> Status r = Pending \<longrightarrow>
      CancelLeaveRequest db i employeeId = (NoContent, RemoveRequest db i) \<and>
      FindRequest (RemoveRequest db i) i = None \<and>
      (\<forall>j. j \<noteq> i \<longrightarrow> FindRequest (RemoveRequest db i) j = FindRequest db j) \<and>
      set (LeaveRequests (RemoveRequest db i)) =
        {r' \<in> set (LeaveRequests db). LeaveRequest.Id r' \<noteq> i}) \<and>
   (fst (CancelLeaveRequest db i employeeId) \<noteq> NoContent \<longrightarrow>
      snd (CancelLeaveRequest db i employeeId) = db)"
proof -
  have 1: "FindRequest db i = None \<longrightarrow> CancelLeaveRequest db i employeeId = (Unauthorized, db)"
    by (simp add: CancelLeaveRequest_cases)
  have 2: "CancelLeaveRequest db i employeeId = (Unauthorized, db)"
    if "FindRequest db i = Some r \<and> EmployeeId r \<noteq> employeeId" for r
    using that by (simp add: CancelLeaveRequest_cases)
  have 3: "CancelLeaveRequest db i employeeId = (InvalidState, db)"
    if "FindRequest db i = Some r \<and> EmployeeId r = employeeId \<and> Status r \<noteq> Pending" for r
    using that by (simp add: CancelLeaveRequest_cases)
  have 4: "CancelLeaveRequest db i employeeId = (NoContent, RemoveRequest db i)"
    if "FindRequest db i = Some r \<and> EmployeeId r = employeeId \<and> Status r = Pending" for r
    using that by (simp add: CancelLeaveRequest_cases)
  have 5: "set (LeaveRequests (RemoveRequest db i)) =
        {r' \<in> set (LeaveRequests db). LeaveRequest.Id r' \<noteq> i}"
    by (auto simp: RemoveRequest_def)
  have 6: "fst (CancelLeaveRequest db i employeeId) \<noteq> NoContent \<longrightarrow>
      snd (CancelLeaveRequest db i employeeId) = db"
    by (simp add: CancelLeaveRequest_cases split: option.splits)
  show ?thesis
    using 1 2 3 4 5 6 FindRequest_RemoveRequest by blast
qed

theorem C7_cancel_cases_witness:
  "CancelLeaveRequest ExampleDb 99 1 = (Unauthorized, ExampleDb) \<and>
   CancelLeaveRequest ExampleDb 4 1 = (Unauthorized, ExampleDb) \<and>
   CancelLeaveRequest ExampleDb 1 1 = (InvalidState, ExampleDb) \<and>
   CancelLeaveRequest ExampleDb 3 1 = (NoContent, RemoveRequest ExampleDb 3) \<and>
   FindRequest (RemoveRequest ExampleDb 3) 3 = None"
proof -
  have a: "FindRequest ExampleDb 4 = Some ManagerLeave \<and>
           EmployeeId ManagerLeave \<noteq> 1"
    by (simp add: FindRequest_Example) (simp add: example_defs)
  have b: "FindRequest ExampleDb 1 = Some ApprovedLeave \<and>
           EmployeeId ApprovedLeave = 1 \<and> Status ApprovedLeave \<noteq> Pending"
    by (simp add: FindRequest_Example) (simp add: example_defs LeaveStatus_defs)
  have c: "FindRequest ExampleDb 3 = Some PendingLeave \<and>
           EmployeeId PendingLeave = 1 \<and> Status PendingLeave = Pending"
    by (simp add: FindRequest_Example) (simp add: example_defs)
  have 1: "CancelLeaveRequest ExampleDb 99 1 = (Unauthorized, ExampleDb)"
    using C7_cancel_cases [of ExampleDb 99 1] FindRequest_Example(5) by blast
  have 2: "CancelLeaveRequest ExampleDb 4 1 = (Unauthorized, ExampleDb)"
    using C7_cancel_cases [of ExampleDb 4 1] a by blast
  have 3: "CancelLeaveRequest ExampleDb 1 1 = (InvalidState, ExampleDb)"
    using C7_cancel_cases [of ExampleDb 1 1] b by blast
  have 4: "CancelLeaveRequest ExampleDb 3 1 = (NoContent, RemoveRequest ExampleDb 3) \<and>
           FindRequest (RemoveRequest ExampleDb 3) 3 = None"
    using C7_cancel_cases [of ExampleDb 3 1] c by blast
  show ?thesis
    using 1 2 3 4 by blast
qed

section \<open>The date invariant\<close>

lemma CreateLeaveRequest_rows:
  assumes "r \<in> set (LeaveRequests (snd (CreateLeaveRequest db now dto)))"
  shows "r \<in> set (LeaveRequests db) \<or> StartDate r < EndDate r"
  using assms
  by (auto simp: CreateLeaveRequest_cases NewRow_def split: if_splits)

lemma UpdateLeaveStatus_dates:
  "map (\<lambda>r. (LeaveRequest.Id r, EmployeeId r, StartDate r, EndDate r, Reason r))
     (LeaveRequests (snd (UpdateLeaveStatus db i managerId statusString))) =
   map (\<lambda>r. (LeaveRequest.Id r, EmployeeId r, StartDate r, EndDate r, Reason r)) (LeaveRequests db)"
  by (simp add: UpdateLeaveStatus_cases SetRequestStatus_dates split: option.splits)

lemma UpdateLeaveStatus_rows:
  assumes "r' \<in> set (LeaveRequests (snd (UpdateLeaveStatus db i managerId statusString)))"
  shows "\<exists>r \<in> set (LeaveRequests db). StartDate r' = StartDate r \<and> EndDate r' = EndDate r"
  using assms
  by (auto simp: UpdateLeaveStatus_cases split: if_splits option.splits
      dest: SetRequestStatus_rows)

lemma CancelLeaveRequest_rows:
  "set (LeaveRequests (snd (CancelLeaveRequest db i employeeId))) \<subseteq> set (LeaveRequests db)"
  using RemoveRequest_rows [of db i]
  by (auto simp: CancelLeaveRequest_cases split: option.splits)

lemma PermanentlyDeleteRequest_rows:
  "set (LeaveRequests (snd (PermanentlyDeleteRequest db i managerId))) \<subseteq> set (LeaveRequests db)"
  using RemoveRequest_rows [of db i]
  by (auto simp: PermanentlyDeleteRequest_cases)

lemma reachable_dates:
  "reachable db \<Longrightarrow> r \<in> set (LeaveRequests db) \<Longrightarrow> StartDate r \<le> EndDate r"
proof (induction arbitrary: r rule: reachable.induct)
  case (fresh db)
  then show ?case by simp
next
  case (create db now dto)
  from CreateLeaveRequest_rows [OF create.prems] create.IH show ?case
    by auto
next
  case (setStatus db i managerId statusString)
  from UpdateLeaveStatus_rows [OF setStatus.prems] setStatus.IH show ?case
    by auto
next
  case (cancel db i employeeId)
  with CancelLeaveRequest_rows [of db i employeeId] show ?case
    by blast
next
  case (delete db i managerId)
  with PermanentlyDeleteRequest_rows [of db i managerId] show ?case
    by blast
qed

text \<open>
  C8: in every store reachable from a fresh database by creations, status changes,
  cancellations and permanent deletions, every stored request has
  \<open>startDate \<le> endDate\<close>. A creation adds only a row whose start is before its end;
  a status change leaves the key, owner, dates and reason of every row as they were;
  cancellation and permanent deletion leave a subset of the rows.
\<close>

theorem C8_start_not_after_end:
  assumes "reachable db"
  shows "(\<forall>r \<in> set (LeaveRequests db). StartDate r \<le> EndDate r) \<and>
         (\<forall>now dto. \<forall>r \<in> set (LeaveRequests (snd (CreateLeaveRequest db now dto))).
            r \<in> set (LeaveRequests db) \<or> StartDate r < EndDate r) \<and>
         (\<forall>i managerId statusString.
            map (\<lambda>r. (LeaveRequest.Id r, EmployeeId r, StartDate r, EndDate r, Reason r))
              (LeaveRequests (snd (UpdateLeaveStatus db i managerId statusString))) =
            map (\<lambda>r. (LeaveRequest.Id r, EmployeeId r, StartDate r, EndDate r, Reason r))
              (LeaveRequests db)) \<and>
         (\<forall>i employeeId.
            set (LeaveRequests (snd (CancelLeaveRequest db i employeeId))) \<subseteq>
            set (LeaveRequests db)) \<and>
         (\<forall>i managerId.
            set (LeaveRequests (snd (PermanentlyDeleteRequest db i managerId))) \<subseteq>
            set (LeaveRequests db))"
  using reachable_dates [OF assms] CreateLeaveRequest_rows UpdateLeaveStatus_dates
    CancelLeaveRequest_rows PermanentlyDeleteRequest_rows
  by blast

lemma approved_long_request_store:
  "snd (UpdateLeaveStatus (snd (CreateLeaveRequest SeedDb (day 100) (NewRequest 1 100 115)))
          1 2 ''Approved'') =
   SeedDb\<lparr>LeaveRequests := [(NewRow SeedDb (NewRequest 1 100 115))\<lparr>Status := Approved\<rparr>],
          LastId := 1\<rparr>"
  apply (simp only: create_15_days_later snd_conv)
  apply (simp add: UpdateLeaveStatus_cases TryParse_examples SetRequestStatus_def
      example_defs NewRow_def)
  done

theorem C8_start_not_after_end_witness:
  "reachable (SeedDb\<lparr>LeaveRequests := [(NewRow SeedDb (NewRequest 1 100 115))\<lparr>Status := Approved\<rparr>],
                    LastId := 1\<rparr>) \<and>
   StartDate ((NewRow SeedDb (NewRequest 1 100 115))\<lparr>Status := Approved\<rparr>) = day 100 \<and>
   EndDate ((NewRow SeedDb (NewRequest 1 100 115))\<lparr>Status := Approved\<rparr>) = day 115 \<and>
   day 100 \<le> day 115"
proof -
  have "reachable SeedDb"
    by (rule reachable.fresh) (simp add: SeedDb_def)
  then have "reachable (snd (CreateLeaveRequest SeedDb (day 100) (NewRequest 1 100 115)))"
    by (rule reachable.create)
  then have "reachable (snd (UpdateLeaveStatus
      (snd (CreateLeaveRequest SeedDb (day 100) (NewRequest 1 100 115))) 1 2 ''Approved''))"
    by (rule reachable.setStatus)
  then have r: "reachable (SeedDb\<lparr>LeaveRequests :=
      [(NewRow SeedDb (NewRequest 1 100 115))\<lparr>Status := Approved\<rparr>], LastId := 1\<rparr>)"
    by (simp only: approved_long_request_store)
  have d: "StartDate ((NewRow SeedDb (NewRequest 1 100 115))\<lparr>Status := Approved\<rparr>) = day 100"
    "EndDate ((NewRow SeedDb (NewRequest 1 100 115))\<lparr>Status := Approved\<rparr>) = day 115"
    by (simp_all add: NewRow_def NewRequest_def)
  have "StartDate ((NewRow SeedDb (NewRequest 1 100 115))\<lparr>Status := Approved\<rparr>) \<le>
        EndDate ((NewRow SeedDb (NewRequest 1 100 115))\<lparr>Status := Approved\<rparr>)"
    using C8_start_not_after_end [OF r] by simp
  then show ?thesis
    using r d by simp
qed

section \<open>Facts about the status parser\<close>

lemma IsAsciiLetter_plain:
  assumes "IsAsciiLetter c"
  shows "\<not> IsWhiteSpace c" "\<not> IsAsciiDigit c" "c \<noteq> CHR '',''" "c \<noteq> CHR ''-''" "c \<noteq> CHR ''+''"
  using assms
  by (auto simp: IsAsciiLetter_def IsWhiteSpace_def IsAsciiDigit_def Let_def)

lemma IsWhiteSpace_not_comma: "IsWhiteSpace c \<Longrightarrow> c \<noteq> CHR '',''"
  by (auto simp: IsWhiteSpace_def Let_def)

lemma ToUpperOrdinal_letter:
  assumes "IsAsciiLetter (ToUpperOrdinal c)"
  shows "IsAsciiLetter c"
  using assms
  by (auto simp: ToUpperOrdinal_def IsAsciiLetter_def Let_def split: if_splits)

lemma upper_names:
  "map ToUpperOrdinal ''Pending'' = ''PENDING''"
  "map ToUpperOrdinal ''Approved'' = ''APPROVED''"
  "map ToUpperOrdinal ''Rejected'' = ''REJECTED''"
  by code_simp+

lemma upper_names_letters:
  "\<forall>d \<in> set ''PENDING''. IsAsciiLetter d"
  "\<forall>d \<in> set ''APPROVED''. IsAsciiLetter d"
  "\<forall>d \<in> set ''REJECTED''. IsAsciiLetter d"
  by (simp_all add: IsAsciiLetter_def)

lemma map_upper_letters:
  assumes "map ToUpperOrdinal t = u" and "\<forall>d \<in> set u. IsAsciiLetter d"
  shows "\<forall>c \<in> set t. IsAsciiLetter c"
proof
  fix c assume "c \<in> set t"
  then have "ToUpperOrdinal c \<in> set u"
    using assms(1) by auto
  then show "IsAsciiLetter c"
    using assms(2) ToUpperOrdinal_letter by blast
qed

lemma TryParseByName_no_comma:
  assumes "val \<noteq> []" and "CHR '','' \<notin> set val"
  shows "TryParseByName ignoreCase val localResult =
           (case LookupName ignoreCase (Trim val) of
              None \<Rightarrow> None
            | Some v \<Rightarrow> Some (localResult OR v))"
proof -
  have "takeWhile (\<lambda>c. c \<noteq> CHR '','') val = val"
    using assms(2) by (auto simp: takeWhile_eq_all_conv)
  then have e: "length (takeWhile (\<lambda>c. c \<noteq> CHR '','') val) = length val"
    by (rule arg_cong)
  show ?thesis
    using assms(1) by (subst TryParseByName.simps) (simp add: Let_def e)
qed

lemma Trim_TrimStart: "Trim (TrimStart s) = Trim s"
  by (simp add: Trim_def TrimStart_def)

lemma TrimStart_split:
  "TrimStart s = Trim s @ rev (takeWhile IsWhiteSpace (rev (TrimStart s)))"
proof -
  have "rev (TrimStart s) =
          takeWhile IsWhiteSpace (rev (TrimStart s)) @ dropWhile IsWhiteSpace (rev (TrimStart s))"
    by simp
  then have "TrimStart s =
          rev (dropWhile IsWhiteSpace (rev (TrimStart s))) @
          rev (takeWhile IsWhiteSpace (rev (TrimStart s)))"
    by (metis rev_append rev_rev_ident)
  then show ?thesis
    by (simp add: Trim_def TrimStart_def)
qed

lemma TrimStart_no_comma:
  assumes "CHR '','' \<notin> set (Trim s)"
  shows "CHR '','' \<notin> set (TrimStart s)"
proof -
  have "\<forall>c \<in> set (rev (takeWhile IsWhiteSpace (rev (TrimStart s)))). c \<noteq> CHR '',''"
    using IsWhiteSpace_not_comma by (auto dest: set_takeWhileD)
  then show ?thesis
    using assms by (subst TrimStart_split) auto
qed

lemma TryParse_not_number:
  assumes "TrimStart s = c # cs"
    and "\<not> IsAsciiDigit c" "c \<noteq> CHR ''-''" "c \<noteq> CHR ''+''"
    and "CHR '','' \<notin> set (TrimStart s)"
  shows "TryParse s ignoreCase =
           (case LookupName ignoreCase (Trim s) of None \<Rightarrow> None | Some v \<Rightarrow> Some v)"
proof -
  have "TryParse s ignoreCase = TryParseByName ignoreCase (TrimStart s) 0"
    using assms(1-4) by (simp add: TryParse_def)
  also have "\<dots> = (case LookupName ignoreCase (Trim (TrimStart s)) of
                      None \<Rightarrow> None | Some v \<Rightarrow> Some (0 OR v))"
    using assms(1,5) by (intro TryParseByName_no_comma) simp_all
  finally show ?thesis
    by (simp add: Trim_TrimStart split: option.splits)
qed

lemma TryParse_letters:
  assumes "Trim s \<noteq> []" and "\<forall>c \<in> set (Trim s). IsAsciiLetter c"
  shows "TryParse s ignoreCase = LookupName ignoreCase (Trim s)"
proof -
  obtain c cs where t: "Trim s = c # cs"
    using assms(1) by (cases "Trim s") auto
  then have u: "TrimStart s = c # (cs @ rev (takeWhile IsWhiteSpace (rev (TrimStart s))))"
    using TrimStart_split [of s] by simp
  have c: "IsAsciiLetter c"
    using assms(2) t by simp
  have "CHR '','' \<notin> set (Trim s)"
    using assms(2) IsAsciiLetter_plain(3) by blast
  then have "CHR '','' \<notin> set (TrimStart s)"
    by (rule TrimStart_no_comma)
  from TryParse_not_number [OF u IsAsciiLetter_plain(2,4,5) [OF c] this]
  show ?thesis
    by (simp split: option.splits)
qed

lemma EqualsName_letters:
  assumes "EqualsName True t name" and "name \<in> {''Pending'', ''Approved'', ''Rejected''}"
  shows "t \<noteq> [] \<and> (\<forall>c \<in> set t. IsAsciiLetter c)"
proof -
  from assms(2) obtain u where u: "map ToUpperOrdinal name = u" "u \<noteq> []"
    "\<forall>d \<in> set u. IsAsciiLetter d"
    using upper_names upper_names_letters by auto
  have m: "map ToUpperOrdinal t = u"
    using assms(1) u(1) by (simp add: EqualsName_def)
  then have "t \<noteq> []"
    using u(2) by auto
  then show ?thesis
    using map_upper_letters [OF m u(3)] by simp
qed

lemma LookupName_cases:
  "LookupName ignoreCase t =
     (if EqualsName ignoreCase t ''Pending'' then Some Pending
      else if EqualsName ignoreCase t ''Approved'' then Some Approved
      else if EqualsName ignoreCase t ''Rejected'' then Some Rejected
      else None)"
  by (simp add: LookupName_def LeaveStatusNames_def)

lemma EqualsName_upper:
  "EqualsName True t ''Pending'' \<longleftrightarrow> map ToUpperOrdinal t = ''PENDING''"
  "EqualsName True t ''Approved'' \<longleftrightarrow> map ToUpperOrdinal t = ''APPROVED''"
  "EqualsName True t ''Rejected'' \<longleftrightarrow> map ToUpperOrdinal t = ''REJECTED''"
  by (simp_all only: EqualsName_def upper_names if_True)

lemma EqualsName_exclusive:
  "EqualsName True t ''Approved'' \<Longrightarrow> \<not> EqualsName True t ''Pending''"
  "EqualsName True t ''Rejected'' \<Longrightarrow> \<not> EqualsName True t ''Pending''"
  "EqualsName True t ''Rejected'' \<Longrightarrow> \<not> EqualsName True t ''Approved''"
proof -
  have d: "''APPROVED'' \<noteq> ''PENDING''" "''REJECTED'' \<noteq> ''PENDING''" "''REJECTED'' \<noteq> ''APPROVED''"
    by simp_all
  show "EqualsName True t ''Approved'' \<Longrightarrow> \<not> EqualsName True t ''Pending''"
    using d(1) unfolding EqualsName_upper by metis
  show "EqualsName True t ''Rejected'' \<Longrightarrow> \<not> EqualsName True t ''Pending''"
    using d(2) unfolding EqualsName_upper by metis
  show "EqualsName True t ''Rejected'' \<Longrightarrow> \<not> EqualsName True t ''Approved''"
    using d(3) unfolding EqualsName_upper by metis
qed

lemma TryParse_Approved:
  assumes "EqualsName True (Trim s) ''Approved''"
  shows "TryParse s True = Some Approved"
proof -
  have "Trim s \<noteq> [] \<and> (\<forall>c \<in> set (Trim s). IsAsciiLetter c)"
    using assms by (intro EqualsName_letters [where name = "''Approved''"]) simp_all
  then have "TryParse s True = LookupName True (Trim s)"
    using TryParse_letters by blast
  then show ?thesis
    using assms EqualsName_exclusive(1) [OF assms] by (simp add: LookupName_cases)
qed

lemma TryParse_Rejected:
  assumes "EqualsName True (Trim s) ''Rejected''"
  shows "TryParse s True = Some Rejected"
proof -
  have "Trim s \<noteq> [] \<and> (\<forall>c \<in> set (Trim s). IsAsciiLetter c)"
    using assms by (intro EqualsName_letters [where name = "''Rejected''"]) simp_all
  then have "TryParse s True = LookupName True (Trim s)"
    using TryParse_letters by blast
  then show ?thesis
    using assms EqualsName_exclusive(2,3) [OF assms] by (simp add: LookupName_cases)
qed

lemma TryParse_no_name:
  assumes "CHR '','' \<notin> set s"
    and "case TrimStart s of [] \<Rightarrow> True
         | c # cs \<Rightarrow> \<not> IsAsciiDigit c \<and> c \<noteq> CHR ''-'' \<and> c \<noteq> CHR ''+''"
    and "\<not> EqualsName True (Trim s) ''Pending''"
    and "\<not> EqualsName True (Trim s) ''Approved''"
    and "\<not> EqualsName True (Trim s) ''Rejected''"
  shows "TryParse s True = None"
proof (cases "TrimStart s")
  case Nil
  then show ?thesis by (simp add: TryParse_def)
next
  case (Cons c cs)
  have "CHR '','' \<notin> set (TrimStart s)"
    using assms(1) by (auto simp: TrimStart_def dest: set_dropWhileD)
  moreover have "\<not> IsAsciiDigit c" "c \<noteq> CHR ''-''" "c \<noteq> CHR ''+''"
    using assms(2) Cons by simp_all
  ultimately have "TryParse s True =
      (case LookupName True (Trim s) of None \<Rightarrow> None | Some v \<Rightarrow> Some v)"
    using TryParse_not_number [OF Cons] by blast
  then show ?thesis
    using assms(3-5) by (simp add: LookupName_cases)
qed

section \<open>The accepted status values\<close>

text \<open>
  C2 (as the specification states it): a status change by a \<open>Manager\<close> on an existing
  request succeeds only for the values \<open>Approved\<close> and \<open>Rejected\<close>, and any other
  value fails with \<open>InvalidStatus\<close>. The controller parses the value with
  \<open>ignoreCase = true\<close>: the value \<open>approved\<close>, which is neither of the two strings,
  is accepted, and the pending request 3 becomes \<open>Approved\<close>.
\<close>

theorem C2_case_insensitive_counterexample:
  "FindEmployee ExampleDb 2 = Some Morgan \<and> Role Morgan = Manager \<and>
   FindRequest ExampleDb 3 = Some PendingLeave \<and>
   ''approved'' \<noteq> ''Approved'' \<and> ''approved'' \<noteq> ''Rejected'' \<and>
   UpdateLeaveStatus ExampleDb 3 2 ''approved'' = (NoContent, SetRequestStatus ExampleDb 3 Approved) \<and>
   NoContent \<noteq> InvalidStatus \<and>
   FindRequest (SetRequestStatus ExampleDb 3 Approved) 3 = Some (PendingLeave\<lparr>Status := Approved\<rparr>) \<and>
   Status PendingLeave \<noteq> Approved"
proof -
  have "UpdateLeaveStatus ExampleDb 3 2 ''approved'' =
          (NoContent, SetRequestStatus ExampleDb 3 Approved)"
    by (simp add: UpdateLeaveStatus_cases FindEmployee_Example FindRequest_Example
        TryParse_examples)
  moreover have "Status PendingLeave \<noteq> Approved"
    by (simp add: PendingLeave_def LeaveStatus_defs)
  ultimately show ?thesis
    by (simp add: FindEmployee_Example FindRequest_Example FindRequest_SetRequestStatus
        InvalidStatus_def)
qed

text \<open>
  The same parser accepts the name \<open>Pending\<close> and numerals, although the message of
  the failure says that the value must be \<open>Approved\<close> or \<open>Rejected\<close>: a manager can
  put an approved request back to \<open>Pending\<close>, or give it the status number 7.
\<close>

lemma TryParse_number: "TryParse ''7'' True = Some 7"
  by code_simp

lemma UpdateLeaveStatus_accepts_Pending_and_numbers:
  "UpdateLeaveStatus ExampleDb 1 2 ''Pending'' = (NoContent, SetRequestStatus ExampleDb 1 Pending)"
  "UpdateLeaveStatus ExampleDb 1 2 ''7'' = (NoContent, SetRequestStatus ExampleDb 1 7)"
  by (simp_all add: UpdateLeaveStatus_cases FindEmployee_Example FindRequest_Example
      TryParse_examples TryParse_number)

text \<open>
  C2 (amended): for a status change by a \<open>Manager\<close> on an existing request, a value
  that, with the white space around it removed and the case of its letters ignored, is
  \<open>Approved\<close> or \<open>Rejected\<close> is accepted and sets that status; a value that
  contains no comma, does not begin (after leading white space) with a digit or a sign,
  and is, trimmed and ignoring case, none of \<open>Pending\<close>, \<open>Approved\<close>,
  \<open>Rejected\<close>, fails with \<open>InvalidStatus\<close> and leaves the store unchanged.
\<close>

theorem C2_status_value_parsing:
  assumes "FindEmployee db managerId = Some m"
    and "Role m = Manager"
    and "FindRequest db i = Some request"
  shows "(EqualsName True (Trim statusString) ''Approved'' \<longrightarrow>
            UpdateLeaveStatus db i managerId statusString =
              (NoContent, SetRequestStatus db i Approved)) \<and>
         (EqualsName True (Trim statusString) ''Rejected'' \<longrightarrow>
            UpdateLeaveStatus db i managerId statusString =
              (NoContent, SetRequestStatus db i Rejected)) \<and>
         (CHR '','' \<notin> set statusString \<and>
          (case TrimStart statusString of
             [] \<Rightarrow> True
           | c # cs \<Rightarrow> \<not> IsAsciiDigit c \<and> c \<noteq> CHR ''-'' \<and> c \<noteq> CHR ''+'') \<and>
          \<not> EqualsName True (Trim statusString) ''Pending'' \<and>
          \<not> EqualsName True (Trim statusString) ''Approved'' \<and>
          \<not> EqualsName True (Trim statusString) ''Rejected'' \<longrightarrow>
            UpdateLeaveStatus db i managerId statusString = (InvalidStatus, db))"
proof -
  have u: "UpdateLeaveStatus db i managerId statusString =
             (case TryParse statusString True of
                None \<Rightarrow> (InvalidStatus, db)
              | Some status \<Rightarrow> (NoContent, SetRequestStatus db i status))"
    using assms by (simp add: UpdateLeaveStatus_cases)
  have 1: "UpdateLeaveStatus db i managerId statusString =
             (NoContent, SetRequestStatus db i Approved)"
    if "EqualsName True (Trim statusString) ''Approved''"
    using TryParse_Approved [OF that] by (simp add: u)
  have 2: "UpdateLeaveStatus db i managerId statusString =
             (NoContent, SetRequestStatus db i Rejected)"
    if "EqualsName True (Trim statusString) ''Rejected''"
    using TryParse_Rejected [OF that] by (simp add: u)
  have 3: "UpdateLeaveStatus db i managerId statusString = (InvalidStatus, db)"
    if "CHR '','' \<notin> set statusString \<and>
        (case TrimStart statusString of
           [] \<Rightarrow> True
         | c # cs \<Rightarrow> \<not> IsAsciiDigit c \<and> c \<noteq> CHR ''-'' \<and> c \<noteq> CHR ''+'') \<and>
        \<not> EqualsName True (Trim statusString) ''Pending'' \<and>
        \<not> EqualsName True (Trim statusString) ''Approved'' \<and>
        \<not> EqualsName True (Trim statusString) ''Rejected''"
  proof -
    have "TryParse statusString True = None"
      using that by (intro TryParse_no_name) simp_all
    then show ?thesis by (simp add: u)
  qed
  show ?thesis
    using 1 2 3 by blast
qed

lemma status_value_examples:
  "EqualsName True (Trim '' approved '') ''Approved''"
  "EqualsName True (Trim ''REJECTED'') ''Rejected''"
  "CHR '','' \<notin> set ''Cancelled''"
  "case TrimStart ''Cancelled'' of
     [] \<Rightarrow> True
   | c # cs \<Rightarrow> \<not> IsAsciiDigit c \<and> c \<noteq> CHR ''-'' \<and> c \<noteq> CHR ''+''"
  "\<not> EqualsName True (Trim ''Cancelled'') ''Pending''"
  "\<not> EqualsName True (Trim ''Cancelled'') ''Approved''"
  "\<not> EqualsName True (Trim ''Cancelled'') ''Rejected''"
  by code_simp+

theorem C2_status_value_parsing_witness:
  "UpdateLeaveStatus ExampleDb 3 2 '' approved '' = (NoContent, SetRequestStatus ExampleDb 3 Approved) \<and>
   UpdateLeaveStatus ExampleDb 1 2 ''REJECTED'' = (NoContent, SetRequestStatus ExampleDb 1 Rejected) \<and>
   UpdateLeaveStatus ExampleDb 3 2 ''Cancelled'' = (InvalidStatus, ExampleDb)"
proof -
  note m = FindEmployee_Example(2) FindEmployee_Example(5)
  have 1: "UpdateLeaveStatus ExampleDb 3 2 '' approved '' =
             (NoContent, SetRequestStatus ExampleDb 3 Approved)"
    using C2_status_value_parsing [OF m FindRequest_Example(3), of "'' approved ''"]
      status_value_examples(1) by blast
  have 2: "UpdateLeaveStatus ExampleDb 1 2 ''REJECTED'' =
             (NoContent, SetRequestStatus ExampleDb 1 Rejected)"
    using C2_status_value_parsing [OF m FindRequest_Example(1), of "''REJECTED''"]
      status_value_examples(2) by blast
  have 3: "UpdateLeaveStatus ExampleDb 3 2 ''Cancelled'' = (InvalidStatus, ExampleDb)"
    using C2_status_value_parsing [OF m FindRequest_Example(3), of "''Cancelled''"]
      status_value_examples(3-7) by blast
  show ?thesis
    using 1 2 3 by blast
qed

end
